theory Spec2Isabelle
  imports Main "HOL-Library.AList"
begin

section \<open>The FastCGI gateway (gluon/contrib/gateways/fcgi.py)\<close>

text \<open>
  Byte strings are \<open>string\<close>, that is \<open>char list\<close>, one \<open>char\<close> per byte. A byte with the
  value \<open>n\<close> is \<open>char_of n\<close>, and \<open>of_char\<close> reads the value back.
\<close>

subsection \<open>Protocol constants\<close>

definition FCGI_VERSION_1 :: nat where "FCGI_VERSION_1 = 1"

definition FCGI_BEGIN_REQUEST :: nat where "FCGI_BEGIN_REQUEST = 1"
definition FCGI_ABORT_REQUEST :: nat where "FCGI_ABORT_REQUEST = 2"
definition FCGI_END_REQUEST :: nat where "FCGI_END_REQUEST = 3"
definition FCGI_PARAMS :: nat where "FCGI_PARAMS = 4"
definition FCGI_STDIN :: nat where "FCGI_STDIN = 5"
definition FCGI_STDOUT :: nat where "FCGI_STDOUT = 6"
definition FCGI_STDERR :: nat where "FCGI_STDERR = 7"
definition FCGI_DATA :: nat where "FCGI_DATA = 8"
definition FCGI_GET_VALUES :: nat where "FCGI_GET_VALUES = 9"
definition FCGI_GET_VALUES_RESULT :: nat where "FCGI_GET_VALUES_RESULT = 10"

definition FCGI_RESPONDER :: nat where "FCGI_RESPONDER = 1"
definition FCGI_AUTHORIZER :: nat where "FCGI_AUTHORIZER = 2"
definition FCGI_FILTER :: nat where "FCGI_FILTER = 3"

subsection \<open>Errors\<close>

text \<open>
  Every raise of the code is a value. \<open>StructError\<close> is \<open>struct.error\<close>, \<open>SocketError\<close> is a
  failure of the socket, \<open>NameError\<close> is the lookup of an unbound name, \<open>ValueError\<close> is a
  failed conversion; \<open>TruncatedStream\<close> and \<open>BadHeader\<close> are the two protocol errors that the
  specification names.
\<close>

datatype error =
  TruncatedStream | BadHeader | StructError | SocketError | NameError | ValueError

text \<open>Sequencing of calls that may raise: the first error ends the computation.\<close>

definition and_then :: "error + 'a \<Rightarrow> ('a \<Rightarrow> error + 'b) \<Rightarrow> error + 'b" where
  "and_then r f = (case r of Inl e \<Rightarrow> Inl e | Inr x \<Rightarrow> f x)"

subsection \<open>Record\<close>

text \<open>
  \<^verbatim>\<open>
  class Record:
      def __init__(self, type, requestId, content=''):
          self.version = FCGI_VERSION_1
          self.type = type
          self.requestId = requestId
          self.content = content
          self.contentLength = len(content)
  \<close>
  The field \<open>type\<close> is \<open>rtype\<close> here.
\<close>

record fcgi_record =
  version :: nat
  rtype :: nat
  requestId :: nat
  content :: string
  contentLength :: nat

definition Record :: "nat \<Rightarrow> nat \<Rightarrow> string \<Rightarrow> fcgi_record" where
  "Record type reqId cont =
     \<lparr>version = FCGI_VERSION_1, rtype = type, requestId = reqId,
      content = cont, contentLength = length cont\<rparr>"

subsection \<open>Connection\<close>

text \<open>
  \<^verbatim>\<open>
  class Connection:
      def __init__(self, sock, addr):
          self._sock = sock
          self._addr = addr
          self._writeBuffer = []
          self._writeBufferSize = 0

      def write(self, data):
          self._writeBuffer.append(data)
          self._writeBufferSize += len(data)

      def flush(self):
          if self._writeBuffer:
              data = ''.join(self._writeBuffer)
              self._sock.sendall(data)
              self._writeBuffer = []
              self._writeBufferSize = 0
  \<close>
  The socket is a value of a type \<open>'s\<close> that the connection owns, and \<open>sendall\<close> is a
  parameter: it takes the data and the socket and returns the socket after the call, with
  the error when the call raised.
\<close>

record ('s, 'a) connection =
  sock :: 's
  addr :: 'a
  writeBuffer :: "string list"
  writeBufferSize :: int

definition Connection :: "'s \<Rightarrow> 'a \<Rightarrow> ('s, 'a) connection" where
  "Connection s a = \<lparr>sock = s, addr = a, writeBuffer = [], writeBufferSize = 0\<rparr>"

definition "write" :: "('s, 'a) connection \<Rightarrow> string \<Rightarrow> ('s, 'a) connection" where
  "write c data =
     c\<lparr>writeBuffer := writeBuffer c @ [data],
       writeBufferSize := writeBufferSize c + int (length data)\<rparr>"

text \<open>
  \<open>flush\<close> returns the connection after the call and the error when \<open>sendall\<close> raised; the
  two assignments after \<open>sendall\<close> are not reached then.
\<close>

definition flush ::
  "(string \<Rightarrow> 's \<Rightarrow> error option \<times> 's) \<Rightarrow> ('s, 'a) connection
     \<Rightarrow> error option \<times> ('s, 'a) connection" where
  "flush sendall c =
     (if writeBuffer c \<noteq> [] then
        (let data = concat (writeBuffer c) in
         case sendall data (sock c) of
           (Some e, s') \<Rightarrow> (Some e, c\<lparr>sock := s'\<rparr>)
         | (None, s') \<Rightarrow> (None, c\<lparr>sock := s', writeBuffer := [], writeBufferSize := 0\<rparr>))
      else (None, c))"

text \<open>The invariant of the outbound buffer.\<close>

definition buffer_inv :: "('s, 'a) connection \<Rightarrow> bool" where
  "buffer_inv c \<longleftrightarrow> writeBufferSize c = int (sum_list (map length (writeBuffer c)))"

subsection \<open>Request\<close>

text \<open>
  \<^verbatim>\<open>
  class Request:
      def __init__(self, conn, reqId):
          self._conn = conn
          self.requestId = reqId
          self.role = None
          self.flags = 0
          self.aborted = False
          self.stdin = StringIO()
          self.stdout = StringIO()
          self.stderr = StringIO()
          self.data = StringIO()
  \<close>
  The field \<open>requestId\<close> of a request is \<open>reqId\<close> here, since a record of the
  protocol has a field of that name. A \<open>StringIO\<close> that is only written to is its contents: the code never seeks, so each
  \<open>write\<close> appends and \<open>getvalue\<close> returns everything written.
\<close>

record 'c request =
  conn :: 'c
  reqId :: nat
  role :: "nat option"
  flags :: nat
  aborted :: bool
  stdin :: string
  stdout :: string
  stderr :: string
  data :: string

definition Request :: "'c \<Rightarrow> nat \<Rightarrow> 'c request" where
  "Request c i =
     \<lparr>conn = c, reqId = i, role = None, flags = 0, aborted = False,
      stdin = [], stdout = [], stderr = [], data = []\<rparr>"

subsection \<open>Application errors\<close>

text \<open>
  \<^verbatim>\<open>
  def _handleApplicationError(self, req, error):
      req.stderr.write(f"Application error: {str(error)}\n")
      response = "Status: 500 Internal Server Error\r\n\r\n"
      req.stdout.write(response)
  \<close>
  The argument \<open>msg\<close> is \<open>str(error)\<close>.
\<close>

definition CR :: char where "CR = CHR 0x0D"
definition LF :: char where "LF = CHR 0x0A"

definition response_500 :: string where
  "response_500 = ''Status: 500 Internal Server Error'' @ [CR, LF, CR, LF]"

definition handleApplicationError :: "'c request \<Rightarrow> string \<Rightarrow> 'c request" where
  "handleApplicationError req msg =
     (let req1 = req\<lparr>stderr := stderr req @ ''Application error: '' @ msg @ [LF]\<rparr>;
          response = response_500
      in req1\<lparr>stdout := stdout req1 @ response\<rparr>)"

subsection \<open>Response streaming\<close>

text \<open>
  \<^verbatim>\<open>
  def _finishRequest(self, req):
      stdout_data = req.stdout.getvalue()
      if stdout_data:
          self._sendRecord(FCGI_STDOUT, req.requestId, stdout_data)
      self._sendRecord(FCGI_STDOUT, req.requestId, '')
      stderr_data = req.stderr.getvalue()
      if stderr_data:
          self._sendRecord(FCGI_STDERR, req.requestId, stderr_data)
          self._sendRecord(FCGI_STDERR, req.requestId, '')
      endReq = struct.pack('!BBxxxxxx', 0, FCGI_REQUEST_COMPLETE)
      self._sendRecord(FCGI_END_REQUEST, req.requestId, endReq)
  \<close>
  \<open>_sendRecord\<close> and the constant \<open>FCGI_REQUEST_COMPLETE\<close> are not in the source: both are
  parameters. \<open>sendRecord type requestId content st\<close> is the state of the server after the
  call, or the error that the call raised.
\<close>

text \<open>\<open>struct.pack('!BBxxxxxx', a, b)\<close>: two unsigned bytes and six zero bytes; a value
  that does not fit a byte raises \<open>struct.error\<close>.\<close>

definition pack_BBx6 :: "nat \<Rightarrow> nat \<Rightarrow> error + string" where
  "pack_BBx6 a b =
     (if a \<le> 255 \<and> b \<le> 255
      then Inr ([char_of a, char_of b] @ replicate 6 (char_of (0::nat)))
      else Inl StructError)"

definition finishRequest ::
  "(nat \<Rightarrow> nat \<Rightarrow> string \<Rightarrow> 'st \<Rightarrow> error + 'st) \<Rightarrow> nat \<Rightarrow> 'c request \<Rightarrow> 'st
     \<Rightarrow> error + 'st" where
  "finishRequest sendRecord FCGI_REQUEST_COMPLETE req st =
     (let stdout_data = stdout req in
      and_then (if stdout_data \<noteq> [] then sendRecord FCGI_STDOUT (reqId req) stdout_data st
                else Inr st) (\<lambda>st1.
      and_then (sendRecord FCGI_STDOUT (reqId req) [] st1) (\<lambda>st2.
      let stderr_data = stderr req in
      and_then (if stderr_data \<noteq> []
                then and_then (sendRecord FCGI_STDERR (reqId req) stderr_data st2)
                       (sendRecord FCGI_STDERR (reqId req) [])
                else Inr st2) (\<lambda>st3.
      and_then (pack_BBx6 0 FCGI_REQUEST_COMPLETE) (\<lambda>endReq.
      sendRecord FCGI_END_REQUEST (reqId req) endReq st3)))))"

text \<open>
  The sender that only records its calls, in order: the state is the list of the
  \<open>(type, requestId, content)\<close> triples sent so far.
\<close>

definition record_call :: "nat \<Rightarrow> nat \<Rightarrow> string \<Rightarrow> (nat \<times> nat \<times> string) list
    \<Rightarrow> error + (nat \<times> nat \<times> string) list" where
  "record_call type i cont sent = Inr (sent @ [(type, i, cont)])"

text \<open>The effect of sending a list of records, one call of \<open>_sendRecord\<close> after the other.\<close>

fun send_all ::
  "(nat \<Rightarrow> nat \<Rightarrow> string \<Rightarrow> 'st \<Rightarrow> error + 'st) \<Rightarrow> (nat \<times> nat \<times> string) list \<Rightarrow> 'st
     \<Rightarrow> error + 'st" where
  "send_all sendRecord [] st = Inr st"
| "send_all sendRecord ((type, i, cont) # rs) st =
     and_then (sendRecord type i cont st) (send_all sendRecord rs)"

text \<open>
  The response as the specification words it, to compare \<open>finishRequest\<close> with: the
  standard output (no record when it is empty), an empty STDOUT record, the standard error
  and an empty STDERR record when there is standard error, and one END_REQUEST record
  whose content starts with the exit status 0 and the protocol status.
\<close>

definition response_records :: "nat \<Rightarrow> 'c request \<Rightarrow> (nat \<times> nat \<times> string) list" where
  "response_records protocolStatus req =
     (if stdout req = [] then [] else [(FCGI_STDOUT, reqId req, stdout req)]) @
     [(FCGI_STDOUT, reqId req, [])] @
     (if stderr req = [] then []
      else [(FCGI_STDERR, reqId req, stderr req), (FCGI_STDERR, reqId req, [])]) @
     [(FCGI_END_REQUEST, reqId req,
       [char_of (0::nat), char_of protocolStatus] @ replicate 6 (char_of (0::nat)))]"

subsection \<open>Name-value pairs\<close>

text \<open>
  Modelled from the spec: the encoder of name-value pairs is not in the source. The
  specification names it \<open>encodeNameValues\<close> and gives the encoding of a length: one byte
  if the value is at most 127, else four bytes, big-endian, with the high bit set. A pair
  is its two lengths, then the name, then the value. A length of \<open>2 ^ 31\<close> or more has no
  encoding: the four bytes written here keep its low 31 bits (\<open>char_of\<close> keeps the low
  eight bits of its argument).
\<close>

definition encodeLength :: "nat \<Rightarrow> string" where
  "encodeLength n =
     (if n \<le> 127 then [char_of n]
      else [char_of (n div 2 ^ 24 mod 128 + 128), char_of (n div 2 ^ 16),
            char_of (n div 2 ^ 8), char_of n])"

text \<open>Modelled from the spec: a pair on the wire, its two lengths, the name, the value.\<close>

definition encodePair :: "string \<times> string \<Rightarrow> string" where
  "encodePair p =
     encodeLength (length (fst p)) @ encodeLength (length (snd p)) @ fst p @ snd p"

text \<open>Modelled from the spec: \<open>encodeNameValues\<close>, the pairs one after the other.\<close>

definition encodeNameValues :: "(string \<times> string) list \<Rightarrow> string" where
  "encodeNameValues pairs = concat (map encodePair pairs)"

text \<open>
  Modelled from the spec: \<open>_readLengths\<close>, which \<open>_decodeParams\<close> calls, is not in the
  source. It reads the length of the name and then the length of the value, each one byte
  if the high bit of the first byte is clear, else four bytes big-endian with the high bit
  masked off, and a stream that ends inside the two lengths is \<open>TruncatedStream\<close>. What
  it does when no byte at all is left is said nowhere, and it decides how the loop of
  \<open>_decodeParams\<close> ends on a stream without a closing pair of zero lengths. It is the
  parameter \<open>eof\<close>: \<open>None\<close> when the helper reports the lengths \<open>(0, 0)\<close> there (the only
  lengths on which the loop stops), \<open>Some e\<close> when it raises \<open>e\<close>.

  A stream is the list of the bytes not yet read.
\<close>

text \<open>Modelled from the spec: one length, of one byte or of four.\<close>

definition readLength :: "string \<Rightarrow> error + (nat \<times> string)" where
  "readLength stream =
     (case stream of
        [] \<Rightarrow> Inl TruncatedStream
      | b0 # rest \<Rightarrow>
          if of_char b0 < (128::nat) then Inr (of_char b0, rest)
          else (case rest of
                  b1 # b2 # b3 # rest' \<Rightarrow>
                    Inr (of_char b0 mod 128 * 2 ^ 24 + of_char b1 * 2 ^ 16
                           + of_char b2 * 2 ^ 8 + of_char b3, rest')
                | _ \<Rightarrow> Inl TruncatedStream))"

text \<open>Modelled from the spec: \<open>_readLengths\<close>, the two lengths of the next pair, with the
  parameter \<open>eof\<close> for a stream that has no byte left.\<close>

definition readLengths :: "error option \<Rightarrow> string \<Rightarrow> error + ((nat \<times> nat) \<times> string)" where
  "readLengths eof stream =
     (if stream = [] then (case eof of None \<Rightarrow> Inr ((0, 0), []) | Some e \<Rightarrow> Inl e)
      else and_then (readLength stream) (\<lambda>(nameLen, s1).
           and_then (readLength s1) (\<lambda>(valueLen, s2).
           Inr ((nameLen, valueLen), s2))))"

text \<open>
  \<open>stream.read(n)\<close> of a Python file object: the next \<open>n\<close> bytes, or all the bytes that
  are left when there are fewer; it does not raise.
\<close>

definition stream_read :: "nat \<Rightarrow> string \<Rightarrow> string \<times> string" where
  "stream_read n stream = (take n stream, drop n stream)"

text \<open>
  \<^verbatim>\<open>
  def _decodeParams(self, stream):
      params = {}
      while True:
          nameLen, valueLen = self._readLengths(stream)
          if nameLen == 0 and valueLen == 0:
              break
          name = stream.read(nameLen)
          value = stream.read(valueLen)
          params[name] = value
      return params
  \<close>
  The dict is the list of its items in insertion order: \<open>params[name] = value\<close> replaces
  the value of a name that is present, in place, and appends a new name at the end, which
  is \<open>AList.update\<close>. The loop is \<open>decodeParams_loop\<close>, with the dict built so far and
  the rest of the stream; each turn that does not leave the loop has read at least the two
  lengths.
\<close>

function decodeParams_loop ::
  "error option \<Rightarrow> (string \<times> string) list \<Rightarrow> string
     \<Rightarrow> error + (string \<times> string) list" where
  "decodeParams_loop eof params stream =
     (case readLengths eof stream of
        Inl e \<Rightarrow> Inl e
      | Inr ((nameLen, valueLen), s1) \<Rightarrow>
          if nameLen = 0 \<and> valueLen = 0 then Inr params
          else (case stream_read nameLen s1 of (name, s2) \<Rightarrow>
                (case stream_read valueLen s2 of (val, s3) \<Rightarrow>
                 decodeParams_loop eof (AList.update name val params) s3)))"
  by pat_completeness auto
termination
  apply (relation "measure (\<lambda>(eof, params, stream). length stream)")
   apply simp
  apply (auto simp: stream_read_def readLengths_def readLength_def and_then_def
              split: if_splits option.splits sum.splits list.splits)
  done

declare decodeParams_loop.simps [simp del]

definition decodeParams :: "error option \<Rightarrow> string \<Rightarrow> error + (string \<times> string) list" where
  "decodeParams eof stream = decodeParams_loop eof [] stream"

text \<open>
  A pair that the encoding can carry and the loop does not take for the end of the
  stream: both lengths below \<open>2 ^ 31\<close>, and not both of them 0.
\<close>

definition encodable :: "string \<times> string \<Rightarrow> bool" where
  "encodable p \<longleftrightarrow>
     length (fst p) < 2 ^ 31 \<and> length (snd p) < 2 ^ 31 \<and> (fst p \<noteq> [] \<or> snd p \<noteq> [])"

text \<open>The dict after the assignments \<open>params[name] = value\<close> for the pairs, in order.\<close>

definition assign_all ::
  "(string \<times> string) list \<Rightarrow> (string \<times> string) list \<Rightarrow> (string \<times> string) list" where
  "assign_all pairs params = fold (\<lambda>p d. AList.update (fst p) (snd p) d) pairs params"

subsection \<open>Encoding and decoding of records\<close>

text \<open>
  Modelled from the spec: the source has the class \<open>Record\<close> and no function that encodes
  or decodes one. The specification gives the header of a record, eight bytes: version,
  type, requestId (two bytes, big-endian), contentLength (two bytes, big-endian),
  paddingLength, reserved; then the content and the padding. \<open>encodeRecord(type,
  requestId, content)\<close> computes the padding to the next multiple of 8 and does not emit a
  record whose content is longer than 65535 bytes. \<open>decodeHeader\<close> fails with
  \<open>BadHeader\<close> when the version is not the supported one or when content and padding
  exceed the frame, here the bytes that follow the header. A decoded record is built by
  the constructor of the source.
\<close>

text \<open>Modelled from the spec: the padding that brings a content of \<open>n\<close> bytes to the next
  multiple of 8.\<close>

definition paddingLength :: "nat \<Rightarrow> nat" where
  "paddingLength n = (8 - n mod 8) mod 8"

text \<open>Modelled from the spec: \<open>encodeRecord\<close>; \<open>None\<close> when a field does not fit its
  bytes of the header.\<close>

definition encodeRecord :: "nat \<Rightarrow> nat \<Rightarrow> string \<Rightarrow> string option" where
  "encodeRecord type i cont =
     (if type \<le> 255 \<and> i \<le> 65535 \<and> length cont \<le> 65535 then
        Some ([char_of FCGI_VERSION_1, char_of type,
               char_of (i div 256), char_of (i mod 256),
               char_of (length cont div 256), char_of (length cont mod 256),
               char_of (paddingLength (length cont)), char_of (0::nat)]
              @ cont @ replicate (paddingLength (length cont)) (char_of (0::nat)))
      else None)"

text \<open>Modelled from the spec: \<open>decodeHeader\<close>, from the eight bytes of the header and the
  number of bytes that follow them.\<close>

definition decodeHeader ::
  "string \<Rightarrow> nat \<Rightarrow> error + (nat \<times> nat \<times> nat \<times> nat \<times> nat)" where
  "decodeHeader header bound =
     (case header of
        [v, t, i1, i0, c1, c0, p, r] \<Rightarrow>
          (let ver = of_char v; cl = of_char c1 * 256 + of_char c0; pl = of_char p in
           if ver \<noteq> FCGI_VERSION_1 \<or> cl + pl > bound then Inl BadHeader
           else Inr (ver, of_char t, of_char i1 * 256 + of_char i0, cl, pl))
      | _ \<Rightarrow> Inl BadHeader)"

text \<open>Modelled from the spec: one record from the front of a stream, and the bytes after
  its padding.\<close>

definition decodeRecord :: "string \<Rightarrow> error + (fcgi_record \<times> string)" where
  "decodeRecord stream =
     and_then (decodeHeader (take 8 stream) (length stream - 8)) (\<lambda>(ver, t, i, cl, pl).
       Inr (Record t i (take cl (drop 8 stream)), drop (8 + cl + pl) stream))"

text \<open>Modelled from the spec: all the records of a stream, until no byte is left.\<close>

function decodeRecords :: "string \<Rightarrow> error + fcgi_record list" where
  "decodeRecords stream =
     (if stream = [] then Inr []
      else (case decodeRecord stream of
              Inl e \<Rightarrow> Inl e
            | Inr (r, rest) \<Rightarrow>
                (case decodeRecords rest of Inl e \<Rightarrow> Inl e | Inr rs \<Rightarrow> Inr (r # rs))))"
  by pat_completeness auto
termination
  apply (relation "measure length")
   apply simp
  apply (auto simp: decodeRecord_def decodeHeader_def and_then_def Let_def
              split: if_splits sum.splits list.splits)
  done

declare decodeRecords.simps [simp del]

text \<open>
  Modelled from the spec: the source splits nothing. The specification asks that content
  longer than 65535 bytes be split into several records of the same type and request id:
  pieces of 65535 bytes and a last, shorter one.
\<close>

function chunkContent :: "string \<Rightarrow> string list" where
  "chunkContent payload =
     (if length payload \<le> 65535 then [payload]
      else take 65535 payload # chunkContent (drop 65535 payload))"
  by pat_completeness auto
termination
  by (relation "measure length") auto

declare chunkContent.simps [simp del]

text \<open>Modelled from the spec: a payload on the wire, the records of its pieces one after
  the other.\<close>

definition encodeRecords :: "nat \<Rightarrow> nat \<Rightarrow> string \<Rightarrow> string option" where
  "encodeRecords type i payload =
     map_option concat (those (map (encodeRecord type i) (chunkContent payload)))"

section \<open>The OAuth 2.0 login (gluon/contrib/login_methods/oauth20_account.py)\<close>

subsection \<open>Names in scope\<close>

text \<open>
  The module imports, at its top level:
  \<^verbatim>\<open>
  import time
  import cgi
  import json
  from gluon._compat import urllib2, urlencode
  from gluon import current, redirect, HTTP
  \<close>
  and \<open>generate_state\<close> imports \<open>random\<close>, \<open>string\<close> and \<open>hashlib\<close> inside its body,
  which binds them in that call only. A function that uses a name it does not bind looks it
  up among the globals of the module, and the lookup of an unbound name raises
  \<open>NameError\<close>. The globals are a parameter of the two functions; \<open>module_globals\<close> are
  those of the source.
\<close>

definition module_globals :: "string list" where
  "module_globals =
     [''time'', ''cgi'', ''json'', ''urllib2'', ''urlencode'', ''current'', ''redirect'', ''HTTP'']"

definition global_name :: "string list \<Rightarrow> string \<Rightarrow> error + unit" where
  "global_name globals name = (if name \<in> set globals then Inr () else Inl NameError)"

subsection \<open>Integers as text\<close>

text \<open>\<open>str(n)\<close> for an integer: its decimal digits, after a minus sign when negative.\<close>

definition digit_char :: "nat \<Rightarrow> char" where
  "digit_char d = char_of (48 + d)"

function str_nat :: "nat \<Rightarrow> string" where
  "str_nat n = (if n < 10 then [digit_char n] else str_nat (n div 10) @ [digit_char (n mod 10)])"
  by pat_completeness auto
termination
  by (relation "measure id") auto

declare str_nat.simps [simp del]

definition str_int :: "int \<Rightarrow> string" where
  "str_int i = (if i < 0 then CHR ''-'' # str_nat (nat (- i)) else str_nat (nat i))"

text \<open>
  \<open>int(s)\<close> for a string: white space around the number is dropped, a sign may come
  first, the digits may have single underscores between them, and anything else raises
  \<open>ValueError\<close>. Characters are bytes here, so the digits and the white space beyond
  ASCII that Python also accepts are not covered.
\<close>

definition is_digit :: "char \<Rightarrow> bool" where
  "is_digit c \<longleftrightarrow> 48 \<le> (of_char c :: nat) \<and> (of_char c :: nat) \<le> 57"

definition is_space :: "char \<Rightarrow> bool" where
  "is_space c \<longleftrightarrow> (of_char c :: nat) \<in> {9, 10, 11, 12, 13, 28, 29, 30, 31, 32}"

fun parse_digits :: "nat \<Rightarrow> string \<Rightarrow> nat option" where
  "parse_digits acc [] = Some acc"
| "parse_digits acc (c # cs) =
     (if is_digit c then parse_digits (acc * 10 + (of_char c - 48)) cs
      else if c = CHR ''_'' \<and> cs \<noteq> [] \<and> is_digit (hd cs) then parse_digits acc cs
      else None)"

text \<open>The number that a string of digits stands for, after the digits read so far.\<close>

definition digits_value :: "nat \<Rightarrow> string \<Rightarrow> nat" where
  "digits_value acc ds = foldl (\<lambda>a c. a * 10 + (of_char c - 48)) acc ds"

definition parse_nat :: "string \<Rightarrow> nat option" where
  "parse_nat s =
     (case s of
        [] \<Rightarrow> None
      | c # cs \<Rightarrow> if is_digit c then parse_digits (of_char c - 48) cs else None)"

definition strip :: "string \<Rightarrow> string" where
  "strip s = rev (dropWhile is_space (rev (dropWhile is_space s)))"

definition py_int :: "string \<Rightarrow> error + int" where
  "py_int s =
     (case strip s of
        [] \<Rightarrow> Inl ValueError
      | c # cs \<Rightarrow>
          if c = CHR ''-'' then
            (case parse_nat cs of None \<Rightarrow> Inl ValueError | Some n \<Rightarrow> Inr (- int n))
          else if c = CHR ''+'' then
            (case parse_nat cs of None \<Rightarrow> Inl ValueError | Some n \<Rightarrow> Inr (int n))
          else (case parse_nat (c # cs) of None \<Rightarrow> Inl ValueError | Some n \<Rightarrow> Inr (int n)))"

text \<open>\<open>s.split(sep)\<close> for a separator of one character.\<close>

fun split_on :: "char \<Rightarrow> string \<Rightarrow> string list" where
  "split_on sep [] = [[]]"
| "split_on sep (c # cs) =
     (if c = sep then [] # split_on sep cs
      else (case split_on sep cs of p # ps \<Rightarrow> (c # p) # ps | [] \<Rightarrow> [[c]]))"

subsection \<open>The state parameter\<close>

text \<open>
  \<^verbatim>\<open>
  def generate_state(self):
      import random
      import string
      import hashlib
      random_str = ''.join(random.choices(string.ascii_letters + string.digits, k=32))
      timestamp = str(int(time.time()))
      combined = f"{random_str}:{timestamp}"
      state_hash = hashlib.sha256(combined.encode()).hexdigest()[:16]
      return f"{random_str}:{timestamp}:{state_hash}"

  def validate_state(self, received_state):
      try:
          parts = received_state.split(':')
          if len(parts) != 3:
              return False
          random_str, timestamp, received_hash = parts
          if int(time.time()) - int(timestamp) > 600:
              return False
          combined = f"{random_str}:{timestamp}"
          expected_hash = hashlib.sha256(combined.encode()).hexdigest()[:16]
          return received_hash == expected_hash
      except:
          return False
  \<close>
  The parameters: \<open>sha256_hexdigest s\<close> is \<open>hashlib.sha256(s.encode()).hexdigest()\<close>,
  \<open>random_str\<close> is the string that \<open>random.choices\<close> drew, and \<open>now\<close> is
  \<open>int(time.time())\<close> at the call.
\<close>

definition generate_state ::
  "string list \<Rightarrow> (string \<Rightarrow> string) \<Rightarrow> string \<Rightarrow> int \<Rightarrow> error + string" where
  "generate_state globals sha256_hexdigest random_str now =
     and_then (global_name globals ''time'') (\<lambda>_.
       let timestamp = str_int now;
           combined = random_str @ '':'' @ timestamp;
           state_hash = take 16 (sha256_hexdigest combined)
       in Inr (random_str @ '':'' @ timestamp @ '':'' @ state_hash))"

text \<open>The body of the \<open>try\<close>, and the function, which turns every error into \<open>False\<close>.\<close>

definition validate_state_body ::
  "string list \<Rightarrow> (string \<Rightarrow> string) \<Rightarrow> int \<Rightarrow> string \<Rightarrow> error + bool" where
  "validate_state_body globals sha256_hexdigest now received_state =
     (case split_on (CHR '':'') received_state of
        [random_str, timestamp, received_hash] \<Rightarrow>
          and_then (global_name globals ''time'') (\<lambda>_.
          and_then (py_int timestamp) (\<lambda>ts.
            if now - ts > 600 then Inr False
            else
              let combined = random_str @ '':'' @ timestamp in
              and_then (global_name globals ''hashlib'') (\<lambda>_.
                let expected_hash = take 16 (sha256_hexdigest combined)
                in Inr (received_hash = expected_hash))))
      | _ \<Rightarrow> Inr False)"

definition validate_state ::
  "string list \<Rightarrow> (string \<Rightarrow> string) \<Rightarrow> int \<Rightarrow> string \<Rightarrow> bool" where
  "validate_state globals sha256_hexdigest now received_state =
     (case validate_state_body globals sha256_hexdigest now received_state of
        Inl _ \<Rightarrow> False
      | Inr b \<Rightarrow> b)"

section \<open>Theorems\<close>

lemma and_then_Inr [simp]: "and_then (Inr x) f = f x"
  by (simp add: and_then_def)

lemma and_then_Inl [simp]: "and_then (Inl e) f = Inl e"
  by (simp add: and_then_def)

subsection \<open>Records and connections\<close>

text \<open>
  C8. A record built by \<open>Record(type, requestId, content)\<close> has the version
  \<open>FCGI_VERSION_1\<close> and a \<open>contentLength\<close> equal to the length of its content.
\<close>

theorem Record_invariant:
  "version (Record type i cont) = FCGI_VERSION_1 \<and>
   contentLength (Record type i cont) = length (content (Record type i cont))"
  by (simp add: Record_def)

text \<open>
  C9. The size counter of the outbound buffer is the sum of the lengths of the buffered
  chunks: after construction, after every \<open>write\<close> and after every \<open>flush\<close> (also one where
  \<open>sendall\<close> raised); and when \<open>flush\<close> returns normally on a connection that satisfies the
  invariant, the buffer is empty and the counter is 0.
\<close>

theorem Connection_buffer_invariant:
  "buffer_inv (Connection s a) \<and>
   (buffer_inv c \<longrightarrow> buffer_inv (write c d)) \<and>
   (buffer_inv c \<longrightarrow> buffer_inv (snd (flush sendall c))) \<and>
   (buffer_inv c \<and> fst (flush sendall c) = None \<longrightarrow>
      writeBuffer (snd (flush sendall c)) = [] \<and> writeBufferSize (snd (flush sendall c)) = 0)"
proof -
  have init: "buffer_inv (Connection s a)"
    by (simp add: buffer_inv_def Connection_def)
  have wr: "buffer_inv c \<longrightarrow> buffer_inv (write c d)"
    by (simp add: buffer_inv_def write_def)
  have fl: "buffer_inv c \<longrightarrow> buffer_inv (snd (flush sendall c))"
    by (auto simp: buffer_inv_def flush_def Let_def split: prod.splits option.splits)
  have emp: "buffer_inv c \<and> fst (flush sendall c) = None \<longrightarrow>
      writeBuffer (snd (flush sendall c)) = [] \<and> writeBufferSize (snd (flush sendall c)) = 0"
    by (auto simp: buffer_inv_def flush_def Let_def split: prod.splits option.splits)
  from init wr fl emp show ?thesis by blast
qed

text \<open>An instance: a socket that records the bytes sent and never fails.\<close>

theorem Connection_buffer_invariant_witness:
  "buffer_inv (write (Connection ([]::string) ()) ''abc'') \<and>
   fst (flush (\<lambda>d s. (None, s @ d)) (write (Connection ([]::string) ()) ''abc'')) = None \<and>
   buffer_inv (write (write (Connection ([]::string) ()) ''abc'') ''de'') \<and>
   buffer_inv (snd (flush (\<lambda>d s. (None, s @ d)) (write (Connection ([]::string) ()) ''abc''))) \<and>
   writeBuffer (snd (flush (\<lambda>d s. (None, s @ d)) (write (Connection ([]::string) ()) ''abc''))) = [] \<and>
   writeBufferSize (snd (flush (\<lambda>d s. (None, s @ d)) (write (Connection ([]::string) ()) ''abc''))) = 0"
proof -
  let ?c = "write (Connection ([]::string) ()) ''abc''"
  let ?send = "\<lambda>d (s::string). (None::error option, s @ d)"
  have inv: "buffer_inv ?c"
    by (simp add: buffer_inv_def write_def Connection_def)
  have ok: "fst (flush ?send ?c) = None"
    by (simp add: flush_def write_def Connection_def)
  from inv ok Connection_buffer_invariant [of "[]::string" "()" ?c "''de''" ?send]
  show ?thesis by blast
qed

text \<open>
  C6 (as the claim states it, refuted). \<open>write\<close> with 65536 bytes puts one chunk of 65536
  bytes into the buffer: nothing is split.
\<close>

theorem write_splits_counterexample:
  "writeBuffer (write (Connection () ()) (replicate 65536 (CHR ''x'')))
     = [replicate 65536 (CHR ''x'')] \<and>
   length (replicate 65536 (CHR ''x'')) > 65535"
  by (simp add: write_def Connection_def)

text \<open>
  C6 (amended). \<open>write\<close> appends its argument to the outbound buffer as one chunk,
  whatever its length, and adds that length to the size counter.
\<close>

theorem write_appends_one_chunk:
  "writeBuffer (write c d) = writeBuffer c @ [d] \<and>
   length (writeBuffer (write c d)) = Suc (length (writeBuffer c)) \<and>
   writeBufferSize (write c d) = writeBufferSize c + int (length d)"
  by (simp add: write_def)

subsection \<open>Application errors and the response\<close>

text \<open>
  C7 (as the claim states it, refuted). A request whose standard output already holds a
  response gets the status line of the error appended all the same.
\<close>

theorem handleApplicationError_counterexample:
  "stdout ((Request () 1)\<lparr>stdout := ''Status: 200 OK''\<rparr>) \<noteq> [] \<and>
   stdout (handleApplicationError ((Request () 1)\<lparr>stdout := ''Status: 200 OK''\<rparr>) ''boom'')
     = ''Status: 200 OK'' @ response_500"
  by (simp add: handleApplicationError_def Request_def)

text \<open>
  C7 (amended). The handler appends the diagnostic message to the standard error of the
  request and appends the status line of the error to its standard output, in every
  case: whether output had been started plays no part.
\<close>

theorem handleApplicationError_effect:
  "stderr (handleApplicationError req msg) = stderr req @ ''Application error: '' @ msg @ [LF] \<and>
   stdout (handleApplicationError req msg) = stdout req @ response_500"
  by (simp add: handleApplicationError_def)

lemma and_then_assoc:
  "and_then (and_then r f) g = and_then r (\<lambda>x. and_then (f x) g)"
  by (cases r) simp_all

lemma and_then_return: "and_then r Inr = r"
  by (cases r) simp_all

lemma send_all_fun:
  "send_all send [] = Inr"
  "send_all send ((type, i, cont) # rs) =
     (\<lambda>st. and_then (send type i cont st) (send_all send rs))"
  by (rule ext, simp)+

lemma finishRequest_send_all:
  assumes "rc \<le> 255"
  shows "finishRequest send rc req s = send_all send (response_records rc req) s"
  using assms
  by (simp add: finishRequest_def response_records_def pack_BBx6_def Let_def
      and_then_assoc and_then_return send_all_fun)

lemma send_all_record_call: "send_all record_call rs sent = Inr (sent @ rs)"
  by (induction rs arbitrary: sent) (auto simp: record_call_def)

text \<open>
  C1. When \<open>FCGI_REQUEST_COMPLETE\<close> fits a byte (so that \<open>struct.pack\<close> does not raise),
  \<open>_finishRequest\<close> does what sending the records of the response does, for every
  \<open>_sendRecord\<close>, also one that raises; and the calls of \<open>_sendRecord\<close> that it makes
  are, in this order: the standard output as a STDOUT record if it is not empty, an empty
  STDOUT record, then, only if the standard error is not empty, the standard error as a
  STDERR record and an empty STDERR record, and last one END_REQUEST record whose eight
  bytes of content start with the exit status 0 and the protocol status
  \<open>FCGI_REQUEST_COMPLETE\<close>.
\<close>

theorem finishRequest_record_sequence:
  assumes "rc \<le> 255"
  shows "finishRequest sendRecord rc req st = send_all sendRecord (response_records rc req) st \<and>
         finishRequest record_call rc req [] =
           Inr ((if stdout req = [] then [] else [(FCGI_STDOUT, reqId req, stdout req)]) @
                [(FCGI_STDOUT, reqId req, [])] @
                (if stderr req = [] then []
                 else [(FCGI_STDERR, reqId req, stderr req), (FCGI_STDERR, reqId req, [])]) @
                [(FCGI_END_REQUEST, reqId req,
                  [char_of (0::nat), char_of rc] @ replicate 6 (char_of (0::nat)))])"
  using assms
  by (simp add: finishRequest_send_all send_all_record_call response_records_def)

theorem finishRequest_record_sequence_witness:
  "(0::nat) \<le> 255 \<and>
   finishRequest record_call 0 ((Request () 1)\<lparr>stdout := ''ok'', stderr := ''warn''\<rparr>) [] =
     Inr [(FCGI_STDOUT, 1, ''ok''), (FCGI_STDOUT, 1, []),
          (FCGI_STDERR, 1, ''warn''), (FCGI_STDERR, 1, []),
          (FCGI_END_REQUEST, 1,
           [char_of (0::nat), char_of (0::nat)] @ replicate 6 (char_of (0::nat)))]"
proof -
  have fits: "(0::nat) \<le> 255" by simp
  from finishRequest_record_sequence [OF fits, THEN conjunct2,
         of "(Request () 1)\<lparr>stdout := ''ok'', stderr := ''warn''\<rparr>"]
  show ?thesis by (simp add: Request_def)
qed

subsection \<open>The length encoding\<close>

lemma div_div_256:
  "(n::nat) div 256 div 256 = n div 65536" "(n::nat) div 65536 div 256 = n div 16777216"
  by (simp_all add: div_mult2_eq [symmetric])

lemma big_endian_31:
  assumes "n < 2147483648"
  shows "(n div 16777216 mod 128 + 128) mod 256 mod 128 * 16777216
           + (n div 65536) mod 256 * 65536 + (n div 256) mod 256 * 256 + n mod 256 = (n::nat)"
proof -
  have top: "n div 16777216 < 128" using assms by simp
  have b0: "n = n div 256 * 256 + n mod 256" by simp
  have b1: "n div 256 = n div 65536 * 256 + n div 256 mod 256"
    using div_mult_mod_eq [of "n div 256" 256] by (simp add: div_div_256)
  have b2: "n div 65536 = n div 16777216 * 256 + n div 65536 mod 256"
    using div_mult_mod_eq [of "n div 65536" 256] by (simp add: div_div_256)
  have b3: "(n div 16777216 mod 128 + 128) mod 256 mod 128 = n div 16777216"
    using top by simp
  show ?thesis using b0 b1 b2 unfolding b3 by linarith
qed

lemma readLength_encodeLength:
  "n < 2 ^ 31 \<Longrightarrow> readLength (encodeLength n @ rest) = Inr (n, rest)"
  using big_endian_31 [of n] by (simp add: encodeLength_def readLength_def)

lemma encodeLength_nonempty: "encodeLength n \<noteq> []"
  by (simp add: encodeLength_def)

lemma readLengths_encoded:
  assumes "n < 2 ^ 31" "v < 2 ^ 31"
  shows "readLengths eof (encodeLength n @ encodeLength v @ rest) = Inr ((n, v), rest)"
  using assms by (simp add: readLengths_def encodeLength_nonempty readLength_encodeLength)

subsection \<open>The decoding loop\<close>

lemma decodeParams_loop_end:
  "decodeParams_loop eof params [] = (case eof of None \<Rightarrow> Inr params | Some e \<Rightarrow> Inl e)"
  by (subst decodeParams_loop.simps) (simp add: readLengths_def split: option.splits)

lemma decodeParams_loop_step:
  assumes "n < 2 ^ 31" "v < 2 ^ 31" "\<not> (n = 0 \<and> v = 0)"
  shows "decodeParams_loop eof params (encodeLength n @ encodeLength v @ rest) =
         decodeParams_loop eof (AList.update (take n rest) (take v (drop n rest)) params)
           (drop v (drop n rest))"
proof -
  have "readLengths eof (encodeLength n @ encodeLength v @ rest) = Inr ((n, v), rest)"
    using assms by (simp add: readLengths_encoded)
  then show ?thesis
    using assms(3) by (subst decodeParams_loop.simps) (auto simp: stream_read_def)
qed

lemma decodeParams_loop_pair:
  assumes "encodable p"
  shows "decodeParams_loop eof params (encodePair p @ rest) =
         decodeParams_loop eof (AList.update (fst p) (snd p) params) rest"
proof -
  have "decodeParams_loop eof params
          (encodeLength (length (fst p)) @ encodeLength (length (snd p)) @ (fst p @ snd p @ rest))
        = decodeParams_loop eof (AList.update (fst p) (snd p) params) rest"
    using assms by (subst decodeParams_loop_step) (auto simp: encodable_def)
  then show ?thesis by (simp add: encodePair_def)
qed

lemma decodeParams_loop_pairs:
  assumes "\<forall>p \<in> set pairs. encodable p"
  shows "decodeParams_loop eof params (encodeNameValues pairs @ rest) =
         decodeParams_loop eof (assign_all pairs params) rest"
  using assms
proof (induction pairs arbitrary: params)
  case Nil
  show ?case by (simp add: encodeNameValues_def assign_all_def)
next
  case (Cons p pairs)
  have "decodeParams_loop eof params (encodeNameValues (p # pairs) @ rest) =
        decodeParams_loop eof params (encodePair p @ (encodeNameValues pairs @ rest))"
    by (simp add: encodeNameValues_def)
  also have "\<dots> = decodeParams_loop eof (AList.update (fst p) (snd p) params)
                    (encodeNameValues pairs @ rest)"
    using Cons.prems by (simp add: decodeParams_loop_pair)
  also have "\<dots> = decodeParams_loop eof
                    (assign_all pairs (AList.update (fst p) (snd p) params)) rest"
    using Cons.prems by (simp add: Cons.IH)
  finally show ?case by (simp add: assign_all_def)
qed

lemma decodeParams_encoded:
  assumes "\<forall>p \<in> set pairs. encodable p"
  shows "decodeParams eof (encodeNameValues pairs) =
         (case eof of None \<Rightarrow> Inr (assign_all pairs []) | Some e \<Rightarrow> Inl e)"
proof -
  have "decodeParams_loop eof [] (encodeNameValues pairs @ []) =
        decodeParams_loop eof (assign_all pairs []) []"
    using assms by (rule decodeParams_loop_pairs)
  then show ?thesis by (simp add: decodeParams_def decodeParams_loop_end)
qed

lemma decodeParams_loop_zero:
  "decodeParams_loop eof params (encodeLength 0 @ encodeLength 0 @ rest) = Inr params"
proof -
  have "readLengths eof (encodeLength 0 @ encodeLength 0 @ rest) = Inr ((0, 0), rest)"
    by (simp add: readLengths_encoded)
  then show ?thesis by (subst decodeParams_loop.simps) simp
qed

lemma decodeParams_closed:
  assumes "\<forall>p \<in> set pairs. encodable p"
  shows "decodeParams eof (encodeNameValues pairs @ encodeLength 0 @ encodeLength 0 @ rest) =
         Inr (assign_all pairs [])"
  using assms by (simp add: decodeParams_def decodeParams_loop_pairs decodeParams_loop_zero)


lemma assign_all_distinct:
  assumes "distinct (map fst params @ map fst pairs)"
  shows "assign_all pairs params = params @ pairs"
  using assms
proof (induction pairs arbitrary: params)
  case Nil
  show ?case by (simp add: assign_all_def)
next
  case (Cons p pairs)
  have "fst p \<notin> fst ` set params" using Cons.prems by auto
  then have fresh: "AList.update (fst p) (snd p) params = params @ [p]"
    by (induction params) auto
  have "assign_all (p # pairs) params = assign_all pairs (params @ [p])"
    by (simp add: assign_all_def fresh)
  also have "\<dots> = (params @ [p]) @ pairs"
    using Cons.prems by (intro Cons.IH) auto
  finally show ?case by simp
qed

text \<open>
  C2 (as the claim states it, refuted). The decoder returns a dict: of two pairs with the
  same name only the second is left, so the list does not come back.
\<close>

theorem decodeParams_roundtrip_counterexample:
  "decodeParams None (encodeNameValues [(''a'', ''1''), (''a'', ''2'')]) = Inr [(''a'', ''2'')] \<and>
   [(''a'', ''2'')] \<noteq> [(''a'', ''1''), (''a'', ''2'')]"
  by (simp add: decodeParams_def encodeNameValues_def encodePair_def encodeLength_def
      readLengths_def readLength_def stream_read_def decodeParams_loop.simps)

text \<open>
  The same holds whatever \<open>_readLengths\<close> does at the end of the stream: when it raises
  there, the decoder raises too.
\<close>

lemma decodeParams_duplicate_any_eof:
  "decodeParams eof (encodeNameValues [(''a'', ''1''), (''a'', ''2'')])
     \<noteq> Inr [(''a'', ''1''), (''a'', ''2'')]"
  by (cases eof) (simp_all add: decodeParams_encoded encodable_def assign_all_def)

text \<open>A pair with an empty name and an empty value is read as the end of the stream.\<close>

lemma decodeParams_empty_pair_stops:
  "decodeParams None (encodeNameValues [([], []), (''a'', ''1'')]) = Inr []"
  by (simp add: decodeParams_def encodeNameValues_def encodePair_def encodeLength_def
      readLengths_def readLength_def stream_read_def decodeParams_loop.simps)

text \<open>
  C2 (amended). For every list of pairs whose names and values are shorter than \<open>2 ^ 31\<close>
  bytes and of which none has both an empty name and an empty value, decoding the
  encoding of the list returns the dict that the assignments of the pairs, in order,
  build, and when the names are distinct the items of that dict are the pairs of the list,
  in the order of the list. This holds for the encoding alone when \<open>_readLengths\<close> reports
  zero lengths at the end of the stream, and for the encoding followed by a pair of zero
  lengths whatever \<open>_readLengths\<close> does there.
\<close>

theorem decodeParams_encodeNameValues:
  assumes "\<forall>p \<in> set pairs. encodable p"
  shows "decodeParams None (encodeNameValues pairs) = Inr (assign_all pairs []) \<and>
         decodeParams eof (encodeNameValues pairs @ encodeLength 0 @ encodeLength 0 @ rest)
           = Inr (assign_all pairs []) \<and>
         (distinct (map fst pairs) \<longrightarrow> assign_all pairs [] = pairs)"
proof -
  have dec: "decodeParams None (encodeNameValues pairs) = Inr (assign_all pairs [])"
    using assms by (simp add: decodeParams_encoded)
  have closed: "decodeParams eof (encodeNameValues pairs @ encodeLength 0 @ encodeLength 0 @ rest)
      = Inr (assign_all pairs [])"
    using assms by (rule decodeParams_closed)
  have "distinct (map fst pairs) \<Longrightarrow> assign_all pairs [] = pairs"
    using assign_all_distinct [of "[]" pairs] by simp
  with dec closed show ?thesis by simp
qed

text \<open>Names and values of the lengths 0, 127, 128 and 16384.\<close>

theorem decodeParams_encodeNameValues_witness:
  "encodable (replicate 127 (CHR ''n''), []) \<and>
   encodable (replicate 128 (CHR ''n''), replicate 16384 (CHR ''v'')) \<and>
   encodable ([], ''x'') \<and>
   distinct (map fst [(replicate 127 (CHR ''n''), []),
                      (replicate 128 (CHR ''n''), replicate 16384 (CHR ''v'')),
                      ([], ''x'')]) \<and>
   decodeParams None (encodeNameValues
     [(replicate 127 (CHR ''n''), []),
      (replicate 128 (CHR ''n''), replicate 16384 (CHR ''v'')),
      ([], ''x'')])
   = Inr [(replicate 127 (CHR ''n''), []),
          (replicate 128 (CHR ''n''), replicate 16384 (CHR ''v'')),
          ([], ''x'')]"
proof -
  let ?pairs = "[(replicate 127 (CHR ''n''), []),
                 (replicate 128 (CHR ''n''), replicate 16384 (CHR ''v'')),
                 ([], ''x'')]"
  have enc: "encodable (replicate 127 (CHR ''n''), [])"
    "encodable (replicate 128 (CHR ''n''), replicate 16384 (CHR ''v''))"
    "encodable ([], ''x'')"
    by (simp_all add: encodable_def)
  have dist: "distinct (map fst ?pairs)"
    by (simp add: replicate_eq_replicate)
  from enc have "\<forall>p \<in> set ?pairs. encodable p" by simp
  from decodeParams_encodeNameValues [OF this, of None "[]"] dist
  have "decodeParams None (encodeNameValues ?pairs) = Inr ?pairs" by simp
  with enc dist show ?thesis by (intro conjI)
qed



text \<open>
  C5 (as the claim states it, refuted). The lengths 3 and 2 followed by two bytes only:
  the decoder returns a dict with the name cut short and an empty value, when
  \<open>_readLengths\<close> reports zero lengths at the end of the stream.
\<close>

theorem decodeParams_truncated_counterexample:
  "decodeParams None (encodeLength 3 @ encodeLength 2 @ ''ab'') = Inr [(''ab'', [])]"
  by (simp add: decodeParams_def encodeLength_def
      readLengths_def readLength_def stream_read_def decodeParams_loop.simps)

text \<open>
  C5 (amended). A stream that ends after the two lengths of a pair (not both 0, below
  \<open>2 ^ 31\<close>) and before all the bytes of the name and the value is not refused for that:
  \<open>read\<close> returns the bytes that are left, the pair is stored as far as it came, and the
  call ends as \<open>_readLengths\<close> ends at the end of the stream: with the dict when that
  reports zero lengths, with its error when it raises.
\<close>

theorem decodeParams_truncated:
  assumes "\<forall>p \<in> set pairs. encodable p"
      and "n < 2 ^ 31" "v < 2 ^ 31" "\<not> (n = 0 \<and> v = 0)" "length rest < n + v"
  shows "decodeParams eof (encodeNameValues pairs @ encodeLength n @ encodeLength v @ rest) =
         (case eof of
            None \<Rightarrow> Inr (AList.update (take n rest) (drop n rest) (assign_all pairs []))
          | Some e \<Rightarrow> Inl e)"
proof -
  have start: "decodeParams eof (encodeNameValues pairs @ encodeLength n @ encodeLength v @ rest) =
        decodeParams_loop eof (assign_all pairs []) (encodeLength n @ encodeLength v @ rest)"
    using assms(1) by (simp add: decodeParams_def decodeParams_loop_pairs)
  have short: "take v (drop n rest) = drop n rest" "drop v (drop n rest) = []"
    using assms(5) by simp_all
  have "decodeParams_loop eof (assign_all pairs []) (encodeLength n @ encodeLength v @ rest) =
        decodeParams_loop eof
          (AList.update (take n rest) (take v (drop n rest)) (assign_all pairs []))
          (drop v (drop n rest))"
    using assms(2-4) by (rule decodeParams_loop_step)
  then show ?thesis
    unfolding start short by (simp only: decodeParams_loop_end)
qed

theorem decodeParams_truncated_witness:
  "encodable (''k'', ''v'') \<and> (3::nat) < 2 ^ 31 \<and> (2::nat) < 2 ^ 31 \<and>
   length ''ab'' < (3::nat) + 2 \<and>
   decodeParams None (encodeNameValues [(''k'', ''v'')] @ encodeLength 3 @ encodeLength 2 @ ''ab'')
     = Inr [(''k'', ''v''), (''ab'', [])] \<and>
   decodeParams (Some TruncatedStream)
       (encodeNameValues [(''k'', ''v'')] @ encodeLength 3 @ encodeLength 2 @ ''ab'')
     = Inl TruncatedStream"
proof -
  have enc: "encodable (''k'', ''v'')" by (simp add: encodable_def)
  then have all: "\<forall>p \<in> set [(''k'', ''v'')]. encodable p" by simp
  have r: "decodeParams eof
             (encodeNameValues [(''k'', ''v'')] @ encodeLength 3 @ encodeLength 2 @ ''ab'') =
           (case eof of
              None \<Rightarrow> Inr (AList.update (take 3 ''ab'') (drop 3 ''ab'')
                               (assign_all [(''k'', ''v'')] []))
            | Some e \<Rightarrow> Inl e)" for eof
    using decodeParams_truncated [OF all, of 3 2 "''ab''" eof] by simp
  show ?thesis
    using enc r [of None] r [of "Some TruncatedStream"] by (simp add: assign_all_def)
qed

subsection \<open>Records on the wire\<close>

lemma decodeRecord_encodeRecord:
  assumes "type \<le> 255" "i \<le> 65535" "length cont \<le> 65535"
  shows "\<exists>bytes. encodeRecord type i cont = Some bytes \<and> bytes \<noteq> [] \<and>
           decodeRecord (bytes @ rest) = Inr (Record type i cont, rest)"
proof -
  have pad: "paddingLength (length cont) < 256" by (simp add: paddingLength_def)
  have hi: "i div 256 < 256" using assms(2) by simp
  have len: "length cont div 256 < 256" using assms(3) by simp
  show ?thesis
    using assms pad hi len
    by (simp add: encodeRecord_def decodeRecord_def decodeHeader_def FCGI_VERSION_1_def Let_def)
qed

lemma chunkContent_concat: "concat (chunkContent payload) = payload"
proof (induction payload rule: chunkContent.induct)
  case (1 payload)
  show ?case
  proof (cases "length payload \<le> 65535")
    case True
    then show ?thesis by (subst chunkContent.simps) simp
  next
    case False
    with 1 show ?thesis by (subst chunkContent.simps) simp
  qed
qed

lemma chunkContent_bound: "c \<in> set (chunkContent payload) \<Longrightarrow> length c \<le> 65535"
proof (induction payload rule: chunkContent.induct)
  case (1 payload)
  show ?case
  proof (cases "length payload \<le> 65535")
    case True
    with "1.prems" show ?thesis by (subst (asm) chunkContent.simps) simp
  next
    case False
    with 1 show ?thesis by (subst (asm) (2) chunkContent.simps) auto
  qed
qed

lemma chunkContent_many: "length payload > 65535 \<Longrightarrow> length (chunkContent payload) > 1"
  by (subst chunkContent.simps, simp, subst chunkContent.simps, simp)

lemma decodeRecords_encoded:
  assumes "type \<le> 255" "i \<le> 65535" "\<forall>c \<in> set cs. length c \<le> 65535"
  shows "\<exists>bs. those (map (encodeRecord type i) cs) = Some bs \<and>
              decodeRecords (concat bs) = Inr (map (Record type i) cs)"
  using assms(3)
proof (induction cs)
  case Nil
  show ?case by (simp add: decodeRecords.simps)
next
  case (Cons c cs)
  from Cons obtain bs where bs: "those (map (encodeRecord type i) cs) = Some bs"
    "decodeRecords (concat bs) = Inr (map (Record type i) cs)" by auto
  from Cons.prems have "length c \<le> 65535" by simp
  from decodeRecord_encodeRecord [OF assms(1,2) this, of "concat bs"]
  obtain b where b: "encodeRecord type i c = Some b" "b \<noteq> []"
    "decodeRecord (b @ concat bs) = Inr (Record type i c, concat bs)" by blast
  have "those (map (encodeRecord type i) (c # cs)) = Some (b # bs)"
    using b(1) bs(1) by simp
  moreover have "decodeRecords (concat (b # bs)) = Inr (map (Record type i) (c # cs))"
    using b(2,3) bs(2) by (subst decodeRecords.simps) simp
  ultimately show ?case by blast
qed

text \<open>
  C3. For a type that fits a byte and a request id that fits 16 bits: a record whose
  content is at most 65535 bytes long is encoded, and decoding the bytes gives the record
  back; a payload of any length is encoded as its pieces of at most 65535 bytes each,
  more than one when the payload is longer, and decoding the bytes gives the records of
  the pieces back, in order, whose contents put together are the payload.
\<close>

theorem record_roundtrip:
  assumes "type \<le> 255" "i \<le> 65535"
  shows "(length cont \<le> 65535 \<longrightarrow>
            (\<exists>bytes. encodeRecord type i cont = Some bytes \<and>
                      decodeRecord bytes = Inr (Record type i cont, []))) \<and>
         (\<exists>bytes. encodeRecords type i payload = Some bytes \<and>
                   decodeRecords bytes = Inr (map (Record type i) (chunkContent payload))) \<and>
         concat (map content (map (Record type i) (chunkContent payload))) = payload \<and>
         (\<forall>c \<in> set (chunkContent payload). length c \<le> 65535) \<and>
         (length payload > 65535 \<longrightarrow> length (chunkContent payload) > 1)"
proof -
  have one: "length cont \<le> 65535 \<longrightarrow>
            (\<exists>bytes. encodeRecord type i cont = Some bytes \<and>
                      decodeRecord bytes = Inr (Record type i cont, []))"
    using decodeRecord_encodeRecord [OF assms, of cont "[]"] by auto
  have bound: "\<forall>c \<in> set (chunkContent payload). length c \<le> 65535"
    by (simp add: chunkContent_bound)
  from decodeRecords_encoded [OF assms this]
  obtain bs where bs: "those (map (encodeRecord type i) (chunkContent payload)) = Some bs"
    "decodeRecords (concat bs) = Inr (map (Record type i) (chunkContent payload))" by blast
  then have many: "\<exists>bytes. encodeRecords type i payload = Some bytes \<and>
                   decodeRecords bytes = Inr (map (Record type i) (chunkContent payload))"
    by (simp add: encodeRecords_def)
  have "map content (map (Record type i) (chunkContent payload)) = chunkContent payload"
    by (simp add: Record_def comp_def)
  then have whole: "concat (map content (map (Record type i) (chunkContent payload))) = payload"
    by (simp add: chunkContent_concat)
  have more: "length payload > 65535 \<longrightarrow> length (chunkContent payload) > 1"
    using chunkContent_many [of payload] by blast
  from one many whole bound more show ?thesis by blast
qed

text \<open>Content of the lengths 0, 1 and 65535, and a payload of 65536 bytes.\<close>

theorem record_roundtrip_witness:
  "FCGI_STDOUT \<le> 255 \<and> (1::nat) \<le> 65535 \<and>
   (\<exists>bytes. encodeRecord FCGI_STDOUT 1 [] = Some bytes \<and>
             decodeRecord bytes = Inr (Record FCGI_STDOUT 1 [], [])) \<and>
   (\<exists>bytes. encodeRecord FCGI_STDOUT 1 ''a'' = Some bytes \<and>
             decodeRecord bytes = Inr (Record FCGI_STDOUT 1 ''a'', [])) \<and>
   (\<exists>bytes. encodeRecord FCGI_STDOUT 1 (replicate 65535 (CHR ''a'')) = Some bytes \<and>
             decodeRecord bytes = Inr (Record FCGI_STDOUT 1 (replicate 65535 (CHR ''a'')), [])) \<and>
   (\<exists>bytes. encodeRecords FCGI_STDOUT 1 (replicate 65536 (CHR ''a'')) = Some bytes \<and>
             decodeRecords bytes =
               Inr (map (Record FCGI_STDOUT 1) (chunkContent (replicate 65536 (CHR ''a''))))) \<and>
   length (chunkContent (replicate 65536 (CHR ''a''))) > 1"
proof -
  have t: "FCGI_STDOUT \<le> 255" by (simp add: FCGI_STDOUT_def)
  have i: "(1::nat) \<le> 65535" by simp
  from record_roundtrip [OF t i, of "[]" "replicate 65536 (CHR ''a'')"]
       record_roundtrip [OF t i, of "''a''" "[]"]
       record_roundtrip [OF t i, of "replicate 65535 (CHR ''a'')" "[]"] t i
  show ?thesis by simp
qed

subsection \<open>The state parameter\<close>

lemma digit_char_props:
  assumes "d < 10"
  shows "is_digit (digit_char d)" "of_char (digit_char d) - 48 = d"
    "\<not> is_space (digit_char d)" "digit_char d \<noteq> CHR '':''"
    "digit_char d \<noteq> CHR ''-''" "digit_char d \<noteq> CHR ''+''"
proof -
  have v: "of_char (digit_char d) = 48 + d"
    using assms by (simp add: digit_char_def)
  show "is_digit (digit_char d)" "of_char (digit_char d) - 48 = d" "\<not> is_space (digit_char d)"
    using assms by (simp_all add: is_digit_def is_space_def v)
  have "(of_char (digit_char d) :: nat) \<noteq> of_char (CHR '':'')"
    "(of_char (digit_char d) :: nat) \<noteq> of_char (CHR ''-'')"
    "(of_char (digit_char d) :: nat) \<noteq> of_char (CHR ''+'')"
    using assms by (simp_all add: v)
  then show "digit_char d \<noteq> CHR '':''" "digit_char d \<noteq> CHR ''-''" "digit_char d \<noteq> CHR ''+''"
    by auto
qed

lemma str_nat_digits: "list_all is_digit (str_nat n) \<and> str_nat n \<noteq> []"
proof (induction n rule: str_nat.induct)
  case (1 n)
  show ?case
  proof (cases "n < 10")
    case True
    then show ?thesis by (subst (1 2) str_nat.simps) (simp add: digit_char_props)
  next
    case False
    with 1 show ?thesis by (subst (1 2) str_nat.simps) (simp add: digit_char_props)
  qed
qed

lemma parse_digits_value:
  "list_all is_digit ds \<Longrightarrow> parse_digits acc ds = Some (digits_value acc ds)"
  by (induction ds arbitrary: acc) (simp_all add: digits_value_def)

lemma digits_value_str_nat: "digits_value 0 (str_nat n) = n"
proof (induction n rule: str_nat.induct)
  case (1 n)
  show ?case
  proof (cases "n < 10")
    case True
    then show ?thesis
      by (subst str_nat.simps) (simp add: digits_value_def digit_char_props)
  next
    case False
    then have "digits_value 0 (str_nat n) =
        digits_value 0 (str_nat (n div 10)) * 10 + (of_char (digit_char (n mod 10)) - 48)"
      by (subst str_nat.simps) (simp add: digits_value_def)
    with False 1 show ?thesis by (simp add: digit_char_props)
  qed
qed

lemma parse_nat_str_nat: "parse_nat (str_nat n) = Some n"
proof -
  obtain c cs where s: "str_nat n = c # cs"
    using str_nat_digits [of n] by (cases "str_nat n") auto
  with str_nat_digits [of n] have d: "is_digit c" "list_all is_digit cs" by auto
  have "parse_nat (str_nat n) = Some (digits_value (of_char c - 48) cs)"
    using d by (simp add: parse_nat_def s parse_digits_value)
  also have "digits_value (of_char c - 48) cs = digits_value 0 (str_nat n)"
    by (simp add: s digits_value_def)
  finally show ?thesis by (simp add: digits_value_str_nat)
qed

lemma str_nat_ends:
  "\<exists>c cs. str_nat n = c # cs \<and> is_digit c \<and> \<not> is_space c \<and> c \<noteq> CHR ''-'' \<and> c \<noteq> CHR ''+''"
  "\<not> is_space (last (str_nat n))"
  "CHR '':'' \<notin> set (str_nat n)"
proof -
  have all: "\<forall>c \<in> set (str_nat n). \<exists>d < 10. c = digit_char d"
  proof (induction n rule: str_nat.induct)
    case (1 n)
    show ?case
    proof (cases "n < 10")
      case True
      then show ?thesis by (subst str_nat.simps) auto
    next
      case False
      have "\<exists>d<10. digit_char (n mod 10) = digit_char d"
        by (rule exI [of _ "n mod 10"]) simp
      with False 1 show ?thesis by (subst str_nat.simps) auto
    qed
  qed
  have ne: "str_nat n \<noteq> []" using str_nat_digits by blast
  then obtain c cs where s: "str_nat n = c # cs" by (cases "str_nat n") auto
  with all obtain d where "d < 10" "c = digit_char d" by auto
  with s show "\<exists>c cs. str_nat n = c # cs \<and> is_digit c \<and> \<not> is_space c \<and> c \<noteq> CHR ''-'' \<and> c \<noteq> CHR ''+''"
    by (simp add: digit_char_props)
  from ne have "last (str_nat n) \<in> set (str_nat n)" by simp
  with all show "\<not> is_space (last (str_nat n))" by (auto simp: digit_char_props)
  show "CHR '':'' \<notin> set (str_nat n)"
  proof
    assume "CHR '':'' \<in> set (str_nat n)"
    with all obtain d where "d < 10" "CHR '':'' = digit_char d" by blast
    then show False using digit_char_props(4) [of d] by simp
  qed
qed

lemma strip_id:
  assumes "s \<noteq> []" "\<not> is_space (hd s)" "\<not> is_space (last s)"
  shows "strip s = s"
proof -
  from assms(1,2) have "dropWhile is_space s = s" by (cases s) auto
  moreover from assms(1,3) have "dropWhile is_space (rev s) = rev s"
    by (cases "rev s") (auto simp: last_rev [symmetric] simp del: last_rev)
  ultimately show ?thesis by (simp add: strip_def)
qed

lemma py_int_str_int: "py_int (str_int t) = Inr t"
proof -
  obtain c cs where s: "str_nat (nat \<bar>t\<bar>) = c # cs"
    and c: "is_digit c" "\<not> is_space c" "c \<noteq> CHR ''-''" "c \<noteq> CHR ''+''"
    using str_nat_ends(1) [of "nat \<bar>t\<bar>"] by blast
  have l: "\<not> is_space (last (c # cs))"
    using str_nat_ends(2) [of "nat \<bar>t\<bar>"] by (simp add: s)
  have p: "parse_nat (c # cs) = Some (nat \<bar>t\<bar>)"
    using parse_nat_str_nat [of "nat \<bar>t\<bar>"] by (simp add: s)
  show ?thesis
  proof (cases "t < 0")
    case True
    then have e: "str_int t = CHR ''-'' # c # cs"
      by (simp add: str_int_def s [symmetric] abs_if)
    have "\<not> is_space (CHR ''-'')" by (simp add: is_space_def)
    then have "strip (str_int t) = CHR ''-'' # c # cs"
      unfolding e using l by (intro strip_id) auto
    then show ?thesis using True p by (simp add: py_int_def)
  next
    case False
    then have e: "str_int t = c # cs"
      by (simp add: str_int_def s [symmetric] abs_if)
    have "strip (str_int t) = c # cs"
      unfolding e using l c by (intro strip_id) auto
    then show ?thesis using False p c by (simp add: py_int_def)
  qed
qed

lemma str_int_no_colon: "CHR '':'' \<notin> set (str_int t)"
  by (simp add: str_int_def str_nat_ends(3))

lemma split_on_none: "sep \<notin> set a \<Longrightarrow> split_on sep a = [a]"
  by (induction a) auto

lemma split_on_first:
  "sep \<notin> set a \<Longrightarrow> split_on sep (a @ sep # rest) = a # split_on sep rest"
  by (induction a) auto

text \<open>
  With the globals of the source, \<open>validate_state\<close> returns \<open>False\<close> for every string at
  every time: a string that is not of three parts, or whose timestamp is not a number or
  is too old, is refused as the code says, and for any other the lookup of \<open>hashlib\<close>
  raises \<open>NameError\<close>, which the \<open>except\<close> turns into \<open>False\<close>.
\<close>

lemma validate_state_unbound_hashlib:
  "validate_state module_globals sha now s = False"
  by (simp add: validate_state_def validate_state_body_def module_globals_def global_name_def
      Let_def and_then_def split: sum.splits list.splits)

text \<open>
  Were \<open>hashlib\<close> among the globals, a state made at the time \<open>t\<close> from a random string
  without a colon would be accepted at the time \<open>t'\<close> exactly when \<open>t' - t \<le> 600\<close>
  (the first sixteen characters of a hexadecimal digest hold no colon).
\<close>

lemma validate_state_with_hashlib:
  assumes g: "''time'' \<in> set globals" "''hashlib'' \<in> set globals"
    and r: "CHR '':'' \<notin> set random_str"
    and h: "CHR '':'' \<notin> set (take 16 (sha (random_str @ '':'' @ str_int t)))"
    and gen: "generate_state globals sha random_str t = Inr s"
  shows "validate_state globals sha t' s \<longleftrightarrow> t' - t \<le> 600"
proof -
  let ?h = "take 16 (sha (random_str @ '':'' @ str_int t))"
  have s: "s = random_str @ CHR '':'' # str_int t @ CHR '':'' # ?h"
    using gen g(1) by (simp add: generate_state_def global_name_def Let_def)
  have parts: "split_on (CHR '':'') s = [random_str, str_int t, ?h]"
    unfolding s using r h
    by (simp add: split_on_first split_on_none str_int_no_colon)
  show ?thesis
    using g
    by (simp add: validate_state_def validate_state_body_def parts global_name_def
        py_int_str_int Let_def)
qed

text \<open>
  C10 (the code at the failing input). \<open>generate_state\<close> returns a state of the three
  parts, and \<open>validate_state\<close> refuses that state, at the time it was made and at any
  other: \<open>validate_state\<close> uses \<open>hashlib\<close>, which only \<open>generate_state\<close> imports.
\<close>

theorem validate_state_rejects_generated_state:
  "generate_state module_globals sha random_str t =
     Inr (random_str @ '':'' @ str_int t @ '':'' @ take 16 (sha (random_str @ '':'' @ str_int t))) \<and>
   validate_state module_globals sha t'
     (random_str @ '':'' @ str_int t @ '':'' @ take 16 (sha (random_str @ '':'' @ str_int t)))
     = False"
proof -
  have "generate_state module_globals sha random_str t =
     Inr (random_str @ '':'' @ str_int t @ '':'' @ take 16 (sha (random_str @ '':'' @ str_int t)))"
    by (simp add: generate_state_def module_globals_def global_name_def Let_def)
  then show ?thesis by (simp add: validate_state_unbound_hashlib)
qed

end
